theory Spec2Isabelle
  imports Complex_Main "HOL-Library.Sublist"
begin

section \<open>The knowledge base of search-engine.py\<close>

text \<open>
  A shallow embedding of \<^verbatim>\<open>src/mcp-ecosystem/knowledge-base/search-engine.py\<close>:
  the dataclasses \<^verbatim>\<open>KnowledgeItem\<close> and \<^verbatim>\<open>SearchResult\<close>, the class
  \<^verbatim>\<open>VectorSearchEngine\<close> (\<^verbatim>\<open>add_items\<close>, \<^verbatim>\<open>search\<close>,
  \<^verbatim>\<open>_semantic_search\<close>, \<^verbatim>\<open>_fulltext_search\<close>, \<^verbatim>\<open>_generate_highlight\<close>)
  and \<^verbatim>\<open>UniversalSearchAPI.search_knowledge_base\<close>.

  Python floats are modelled as reals and the readings of \<^verbatim>\<open>datetime.now\<close> as
  integers. A Python string is a list of characters: an ASCII character is itself, and
  the characters with the top bit set stand for the characters outside ASCII. What
  Python does by its Unicode tables (\<^verbatim>\<open>lower\<close>, \<^verbatim>\<open>upper\<close>, \<^verbatim>\<open>split\<close>, matching
  without case) is defined here on ASCII strings and is a parameter of the model on
  the others. The libraries the engine calls (the sentence transformer, the ChromaDB
  collection, SQLite's FTS5 table, \<^verbatim>\<open>json\<close>, the template parser of \<^verbatim>\<open>re\<close>) are
  parameters too: a record of functions that may answer with an error, which the
  code's \<^verbatim>\<open>except\<close> clauses handle.
\<close>

subsection \<open>Data model\<close>

datatype ContentType =
  CODE | DOCUMENTATION | CONFIG | SECRET_METADATA | REPOSITORY | ISSUE | COMMIT | FILE | NOTE

fun ContentType_value :: "ContentType \<Rightarrow> string" where
  "ContentType_value CODE = ''code''"
| "ContentType_value DOCUMENTATION = ''documentation''"
| "ContentType_value CONFIG = ''config''"
| "ContentType_value SECRET_METADATA = ''secret_metadata''"
| "ContentType_value REPOSITORY = ''repository''"
| "ContentType_value ISSUE = ''issue''"
| "ContentType_value COMMIT = ''commit''"
| "ContentType_value FILE = ''file''"
| "ContentType_value NOTE = ''note''"

text \<open>\<^verbatim>\<open>ContentType(s)\<close>: the member whose value is \<open>s\<close>; \<open>None\<close> stands for the
  \<^verbatim>\<open>ValueError\<close> Python raises on any other string.\<close>

definition ContentType_of :: "string \<Rightarrow> ContentType option" where
  "ContentType_of s =
     (if s = ''code'' then Some CODE
      else if s = ''documentation'' then Some DOCUMENTATION
      else if s = ''config'' then Some CONFIG
      else if s = ''secret_metadata'' then Some SECRET_METADATA
      else if s = ''repository'' then Some REPOSITORY
      else if s = ''issue'' then Some ISSUE
      else if s = ''commit'' then Some COMMIT
      else if s = ''file'' then Some FILE
      else if s = ''note'' then Some NOTE
      else None)"

datatype error =
  KeyError | ValueError | IndexError | AttributeError | TypeError | ReError
  | EncoderError | ChromaError | SqliteError | JsonError

type_synonym timestamp = int

type_synonym metadata = "(string \<times> string) list"

text \<open>The dataclass \<^verbatim>\<open>KnowledgeItem\<close>. The three fields the dataclass defaults to
  \<^verbatim>\<open>None\<close> are options here, so that \<^verbatim>\<open>__post_init__\<close> has something to do.\<close>

record KnowledgeItem =
  item_id :: string
  title :: string
  content :: string
  content_type :: ContentType
  source :: string
  item_metadata :: metadata
  embedding :: "real list option"
  created_at :: "timestamp option"
  updated_at :: "timestamp option"
  tags :: "string list option"

text \<open>\<^verbatim>\<open>__post_init__\<close>; \<open>now\<close> is what \<^verbatim>\<open>datetime.now(timezone.utc)\<close> returns
  when it is called.\<close>

definition post_init :: "timestamp \<Rightarrow> KnowledgeItem \<Rightarrow> KnowledgeItem" where
  "post_init now self =
     (let self1 = (if created_at self = None then self\<lparr>created_at := Some now\<rparr> else self);
          self2 = (if updated_at self1 = None then self1\<lparr>updated_at := created_at self1\<rparr>
                   else self1)
      in if tags self2 = None then self2\<lparr>tags := Some []\<rparr> else self2)"

datatype search_context = Semantic real | Fulltext real

record SearchResult =
  item :: KnowledgeItem
  score :: real
  highlight :: string
  result_context :: search_context

subsection \<open>Strings\<close>

text \<open>The strings made of ASCII characters only.\<close>

definition is_ascii :: "string \<Rightarrow> bool" where
  "is_ascii s = list_all (\<lambda>c. \<not> digit7 c) s"

text \<open>\<^verbatim>\<open>s.lower()\<close> and \<^verbatim>\<open>s.upper()\<close> of an ASCII string \<open>s\<close>: the 26 letters change
  case, one character for one. (Outside ASCII Python's result can have another length;
  see \<open>str_lower\<close> below.)\<close>

definition lower_char :: "char \<Rightarrow> char" where
  "lower_char c =
     (case map_of (zip ''ABCDEFGHIJKLMNOPQRSTUVWXYZ'' ''abcdefghijklmnopqrstuvwxyz'') c of
        Some d \<Rightarrow> d | None \<Rightarrow> c)"

definition upper_char :: "char \<Rightarrow> char" where
  "upper_char c =
     (case map_of (zip ''abcdefghijklmnopqrstuvwxyz'' ''ABCDEFGHIJKLMNOPQRSTUVWXYZ'') c of
        Some d \<Rightarrow> d | None \<Rightarrow> c)"

definition lower :: "string \<Rightarrow> string" where
  "lower s = map lower_char s"

definition upper :: "string \<Rightarrow> string" where
  "upper s = map upper_char s"

text \<open>The ASCII characters for which \<^verbatim>\<open>str.isspace\<close> holds. (There are others
  outside ASCII; see \<open>str_split\<close> below.)\<close>

definition is_space :: "char \<Rightarrow> bool" where
  "is_space c \<longleftrightarrow>
     c \<in> set [CHR 0x20, CHR 0x09, CHR 0x0A, CHR 0x0B, CHR 0x0C, CHR 0x0D,
               CHR 0x1C, CHR 0x1D, CHR 0x1E, CHR 0x1F]"

text \<open>\<^verbatim>\<open>s.split()\<close> of an ASCII string: the maximal runs of non-space characters;
  \<open>cur\<close> is the run being read, reversed.\<close>

fun split_ws :: "string \<Rightarrow> string \<Rightarrow> string list" where
  "split_ws cur [] = (if cur = [] then [] else [rev cur])"
| "split_ws cur (c # cs) =
     (if is_space c then (if cur = [] then split_ws [] cs else rev cur # split_ws [] cs)
      else split_ws (c # cur) cs)"

definition py_split :: "string \<Rightarrow> string list" where
  "py_split s = split_ws [] s"

text \<open>\<^verbatim>\<open>s.split(sep)\<close> for a one-character separator: empty fields are kept.\<close>

fun split_on :: "char \<Rightarrow> string \<Rightarrow> string \<Rightarrow> string list" where
  "split_on sep cur [] = [rev cur]"
| "split_on sep cur (c # cs) =
     (if c = sep then rev cur # split_on sep [] cs else split_on sep (c # cur) cs)"

definition py_split_sep :: "char \<Rightarrow> string \<Rightarrow> string list" where
  "py_split_sep sep s = split_on sep [] s"

text \<open>\<^verbatim>\<open>sep.join(xs)\<close>.\<close>

fun py_join :: "string \<Rightarrow> string list \<Rightarrow> string" where
  "py_join sep [] = []"
| "py_join sep [x] = x"
| "py_join sep (x # y # ys) = x @ sep @ py_join sep (y # ys)"

text \<open>\<^verbatim>\<open>s.find(w)\<close>: the least index at which \<open>w\<close> starts in \<open>s\<close>; \<open>None\<close> is
  Python's \<open>-1\<close>.\<close>

definition starts_with :: "string \<Rightarrow> string \<Rightarrow> bool" where
  "starts_with w s \<longleftrightarrow> take (length w) s = w"

fun find_sub :: "string \<Rightarrow> string \<Rightarrow> nat option" where
  "find_sub w [] = (if w = [] then Some 0 else None)"
| "find_sub w (c # cs) =
     (if starts_with w (c # cs) then Some 0 else map_option Suc (find_sub w cs))"

text \<open>\<^verbatim>\<open>re.compile(re.escape(word), re.IGNORECASE).sub(repl, s)\<close> for an ASCII word
  and an ASCII string, once the template \<open>repl\<close> has been parsed: the occurrences of
  the literal \<open>word\<close>, compared without case, are replaced from the left and do not
  overlap. An empty pattern matches before every character and at the end.\<close>

fun re_sub_ci :: "string \<Rightarrow> string \<Rightarrow> string \<Rightarrow> string" where
  "re_sub_ci word repl [] = (if word = [] then repl else [])"
| "re_sub_ci word repl (c # cs) =
     (if word = [] then repl @ c # re_sub_ci word repl cs
      else if starts_with (lower word) (lower (c # cs))
      then repl @ re_sub_ci word repl (drop (length word) (c # cs))
      else c # re_sub_ci word repl cs)"

subsection \<open>The libraries the engine calls\<close>

text \<open>The \<^verbatim>\<open>where\<close> dictionary handed to ChromaDB: an \<^verbatim>\<open>$in\<close> list per key that
  is present.\<close>

record where_clause =
  where_content_type :: "string list option"
  where_source :: "string list option"

text \<open>One entry of what \<^verbatim>\<open>collection.query\<close> returns: the parallel lists
  \<^verbatim>\<open>ids\<close>, \<^verbatim>\<open>metadatas\<close>, \<^verbatim>\<open>documents\<close> and \<^verbatim>\<open>distances\<close> read at one
  index. The metadata dictionary is an association list, read with \<open>map_of\<close>.\<close>

record chroma_hit =
  hit_id :: string
  hit_metadata :: metadata
  hit_document :: string
  hit_distance :: real

text \<open>One row of the \<^verbatim>\<open>SELECT\<close> over \<^verbatim>\<open>knowledge_fts\<close>.\<close>

record fts_row =
  row_id :: string
  row_title :: string
  row_content :: string
  row_content_type :: string
  row_source :: string
  row_tags :: string
  row_metadata :: string
  row_rank :: real

text \<open>The metadata dictionary \<^verbatim>\<open>add_items\<close> hands to ChromaDB for one item, and
  one stored entry of the collection. Timestamps stand for their \<^verbatim>\<open>isoformat()\<close>
  strings.\<close>

record chroma_meta =
  cm_title :: string
  cm_content_type :: string
  cm_source :: string
  cm_created_at :: timestamp
  cm_tags :: string

record chroma_entry =
  ce_id :: string
  ce_embedding :: "real list"
  ce_metadata :: chroma_meta
  ce_document :: string

text \<open>
  \<^item> \<open>now k\<close>: the \<open>k\<close>-th reading of \<^verbatim>\<open>datetime.now(timezone.utc)\<close>;
  \<^item> \<open>model_encode\<close>: \<^verbatim>\<open>self.model.encode(texts).tolist()\<close>;
  \<^item> \<open>collection_query\<close>: \<^verbatim>\<open>self.collection.query\<close> with the query embedding,
    \<^verbatim>\<open>n_results\<close> and \<^verbatim>\<open>where\<close>;
  \<^item> \<open>fts_execute\<close>: the \<^verbatim>\<open>MATCH\<close> query on \<^verbatim>\<open>knowledge_fts\<close> with the query
    text, the values of the two \<^verbatim>\<open>IN\<close> conditions that are present, and the
    \<^verbatim>\<open>LIMIT\<close>;
  \<^item> \<open>collection_add\<close>: \<^verbatim>\<open>self.collection.add\<close> on the collection's entries,
    with the four lists \<^verbatim>\<open>ids\<close>, \<^verbatim>\<open>embeddings\<close>, \<^verbatim>\<open>metadatas\<close> and
    \<^verbatim>\<open>documents\<close>;
  \<^item> \<open>json_loads\<close>: \<^verbatim>\<open>json.loads\<close>;
  \<^item> \<open>re_template\<close>: how \<^verbatim>\<open>re\<close> reads a replacement template (its escapes and
    group references), or the \<^verbatim>\<open>re.error\<close> it raises;
  \<^item> \<open>unicode_lower\<close>, \<open>unicode_upper\<close>, \<open>unicode_split\<close>: \<^verbatim>\<open>s.lower()\<close>,
    \<^verbatim>\<open>s.upper()\<close> and \<^verbatim>\<open>s.split()\<close> of a string with a character outside ASCII;
  \<^item> \<open>unicode_sub\<close>: \<^verbatim>\<open>re.compile(re.escape(word), re.IGNORECASE).sub(repl, s)\<close>
    when the word or the string has a character outside ASCII.
\<close>

record env =
  now :: "nat \<Rightarrow> timestamp"
  model_encode :: "string list \<Rightarrow> error + real list list"
  collection_query :: "real list \<Rightarrow> int \<Rightarrow> where_clause option \<Rightarrow> error + chroma_hit list"
  fts_execute ::
    "string \<Rightarrow> string list option \<Rightarrow> string list option \<Rightarrow> int \<Rightarrow> error + fts_row list"
  collection_add ::
    "chroma_entry list \<Rightarrow> string list \<Rightarrow> real list list \<Rightarrow> chroma_meta list \<Rightarrow>
     string list \<Rightarrow> error + chroma_entry list"
  json_loads :: "string \<Rightarrow> error + metadata"
  re_template :: "string \<Rightarrow> error + string"
  unicode_lower :: "string \<Rightarrow> string"
  unicode_upper :: "string \<Rightarrow> string"
  unicode_split :: "string \<Rightarrow> string list"
  unicode_sub :: "string \<Rightarrow> string \<Rightarrow> string \<Rightarrow> string"

text \<open>The four string operations of \<^verbatim>\<open>_generate_highlight\<close> that read Python's
  Unicode tables, on any string.\<close>

definition str_lower :: "env \<Rightarrow> string \<Rightarrow> string" where
  "str_lower e s = (if is_ascii s then lower s else unicode_lower e s)"

definition str_upper :: "env \<Rightarrow> string \<Rightarrow> string" where
  "str_upper e s = (if is_ascii s then upper s else unicode_upper e s)"

definition str_split :: "env \<Rightarrow> string \<Rightarrow> string list" where
  "str_split e s = (if is_ascii s then py_split s else unicode_split e s)"

definition re_sub :: "env \<Rightarrow> string \<Rightarrow> string \<Rightarrow> string \<Rightarrow> string" where
  "re_sub e word repl s =
     (if is_ascii word \<and> is_ascii s then re_sub_ci word repl s else unicode_sub e word repl s)"

datatype index_call =
  VectorQuery "real list" int "where_clause option"
| LexicalQuery string "string list option" "string list option" int

text \<open>What a call leaves behind: how many clock readings were taken, and the queries
  sent to the two indexes, oldest first.\<close>

record world =
  ticks :: nat
  calls :: "index_call list"

text \<open>The constructor \<^verbatim>\<open>KnowledgeItem(...)\<close>: the clock is read only when
  \<^verbatim>\<open>created_at\<close> was not supplied.\<close>

definition new_item :: "env \<Rightarrow> world \<Rightarrow> KnowledgeItem \<Rightarrow> world \<times> KnowledgeItem" where
  "new_item e w raw =
     (if created_at raw = None
      then (w\<lparr>ticks := Suc (ticks w)\<rparr>, post_init (now e (ticks w)) raw)
      else (w, post_init (now e (ticks w)) raw))"

subsection \<open>\<^verbatim>\<open>_generate_highlight\<close>\<close>

text \<open>The loop over the query words; \<open>best = None\<close> is \<^verbatim>\<open>float('inf')\<close>.\<close>

fun best_pos :: "string \<Rightarrow> string list \<Rightarrow> nat option \<Rightarrow> nat option" where
  "best_pos content_lower [] best = best"
| "best_pos content_lower (word # ws) best =
     (case find_sub word content_lower of
        None \<Rightarrow> best_pos content_lower ws best
      | Some pos \<Rightarrow>
          (if (case best of None \<Rightarrow> True | Some b \<Rightarrow> pos < b)
           then best_pos content_lower ws (Some pos)
           else best_pos content_lower ws best))"

text \<open>The lines from \<^verbatim>\<open>start = max(0, best_pos - 100)\<close> to the second ellipsis.\<close>

definition highlight_window :: "string \<Rightarrow> nat \<Rightarrow> string" where
  "highlight_window cont bp =
     (let start = (if bp < 100 then 0 else bp - 100);
          end' = min (length cont) (bp + 200);
          snippet = take (end' - start) (drop start cont);
          snippet1 = (if start > 0 then ''...'' @ snippet else snippet)
      in if end' < length cont then snippet1 @ ''...'' else snippet1)"

text \<open>The loop that marks the query words, one \<^verbatim>\<open>pattern.sub\<close> per word on the
  result of the one before.\<close>

definition mark_template :: "env \<Rightarrow> string \<Rightarrow> string" where
  "mark_template e word = ''**'' @ str_upper e word @ ''**''"

fun mark_words :: "env \<Rightarrow> string list \<Rightarrow> string \<Rightarrow> error + string" where
  "mark_words e [] snippet = Inr snippet"
| "mark_words e (word # ws) snippet =
     (case re_template e (mark_template e word) of
        Inl err \<Rightarrow> Inl err
      | Inr repl \<Rightarrow> mark_words e ws (re_sub e word repl snippet))"

definition generate_highlight :: "env \<Rightarrow> string \<Rightarrow> string \<Rightarrow> error + string" where
  "generate_highlight e cont query =
     (let words = str_split e (str_lower e query);
          content_lower = str_lower e cont
      in case best_pos content_lower words None of
           None \<Rightarrow> Inr (if length cont > 200 then take 200 cont @ ''...'' else cont)
         | Some bp \<Rightarrow> mark_words e words (highlight_window cont bp))"

subsection \<open>\<^verbatim>\<open>_semantic_search\<close> and \<^verbatim>\<open>_fulltext_search\<close>\<close>

text \<open>Python's truth value of an optional list: \<^verbatim>\<open>None\<close> and \<^verbatim>\<open>[]\<close> are false.\<close>

definition truthy :: "'a list option \<Rightarrow> bool" where
  "truthy x = (case x of None \<Rightarrow> False | Some xs \<Rightarrow> xs \<noteq> [])"

definition build_where :: "ContentType list option \<Rightarrow> string list option \<Rightarrow> where_clause option" where
  "build_where content_types sources =
     (let ct = (if truthy content_types then Some (map ContentType_value (the content_types))
                else None);
          src = (if truthy sources then sources else None)
      in if ct = None \<and> src = None then None
         else Some \<lparr>where_content_type = ct, where_source = src\<rparr>)"

text \<open>\<^verbatim>\<open>s.split(',') if s else []\<close>.\<close>

definition tags_of_string :: "string \<Rightarrow> string list" where
  "tags_of_string s = (if s = [] then [] else py_split_sep CHR '','' s)"

text \<open>The body of the loop over the hits of ChromaDB. A missing metadata key, a content
  type outside the enumeration and a failing highlight raise, and the exception leaves
  the loop.\<close>

fun semantic_rows ::
  "env \<Rightarrow> string \<Rightarrow> chroma_hit list \<Rightarrow> world \<Rightarrow> world \<times> (error + SearchResult list)" where
  "semantic_rows e query [] w = (w, Inr [])"
| "semantic_rows e query (h # hs) w =
     (let md = map_of (hit_metadata h);
          score' = max 0 (1 - hit_distance h)
      in case md ''title'' of
           None \<Rightarrow> (w, Inl KeyError)
         | Some ttl \<Rightarrow>
       (case md ''content_type'' of
           None \<Rightarrow> (w, Inl KeyError)
         | Some cts \<Rightarrow>
       (case ContentType_of cts of
           None \<Rightarrow> (w, Inl ValueError)
         | Some ct \<Rightarrow>
       (case md ''source'' of
           None \<Rightarrow> (w, Inl KeyError)
         | Some src \<Rightarrow>
       (case new_item e w
               \<lparr>item_id = hit_id h, title = ttl, content = hit_document h,
                content_type = ct, source = src, item_metadata = [],
                embedding = None, created_at = None, updated_at = None,
                tags = Some (case md ''tags'' of None \<Rightarrow> [] | Some s \<Rightarrow> tags_of_string s)\<rparr> of
          (w1, it) \<Rightarrow>
       (case generate_highlight e (hit_document h) query of
           Inl err \<Rightarrow> (w1, Inl err)
         | Inr hl \<Rightarrow>
       (case semantic_rows e query hs w1 of
           (w2, Inl err) \<Rightarrow> (w2, Inl err)
         | (w2, Inr rs) \<Rightarrow>
             (w2, Inr (\<lparr>item = it, score = score', highlight = hl,
                        result_context = Semantic (hit_distance h)\<rparr> # rs)))))))))"

definition semantic_search ::
  "env \<Rightarrow> string \<Rightarrow> int \<Rightarrow> ContentType list option \<Rightarrow> string list option \<Rightarrow>
   string list option \<Rightarrow> world \<Rightarrow> world \<times> SearchResult list" where
  "semantic_search e query limit content_types sources tgs w =
     (let wc = build_where content_types sources
      in case model_encode e [query] of
           Inl err \<Rightarrow> (w, [])
         | Inr [] \<Rightarrow> (w, [])
         | Inr (query_embedding # _) \<Rightarrow>
             (let w1 = w\<lparr>calls := calls w @ [VectorQuery query_embedding limit wc]\<rparr>
              in case collection_query e query_embedding limit wc of
                   Inl err \<Rightarrow> (w1, [])
                 | Inr hits \<Rightarrow>
                     (case semantic_rows e query hits w1 of
                        (w2, Inl err) \<Rightarrow> (w2, [])
                      | (w2, Inr rs) \<Rightarrow> (w2, rs))))"

text \<open>The body of the loop over the rows of the full-text query.\<close>

fun fulltext_rows ::
  "env \<Rightarrow> string \<Rightarrow> fts_row list \<Rightarrow> world \<Rightarrow> world \<times> (error + SearchResult list)" where
  "fulltext_rows e query [] w = (w, Inr [])"
| "fulltext_rows e query (r # rows) w =
     (let score' = max 0 (- row_rank r / 10)
      in case ContentType_of (row_content_type r) of
           None \<Rightarrow> (w, Inl ValueError)
         | Some ct \<Rightarrow>
       (case (if row_metadata r = [] then Inr [] else json_loads e (row_metadata r)) of
           Inl err \<Rightarrow> (w, Inl err)
         | Inr md \<Rightarrow>
       (case new_item e w
               \<lparr>item_id = row_id r, title = row_title r, content = row_content r,
                content_type = ct, source = row_source r, item_metadata = md,
                embedding = None, created_at = None, updated_at = None,
                tags = Some (tags_of_string (row_tags r))\<rparr> of
          (w1, it) \<Rightarrow>
       (case generate_highlight e (row_content r) query of
           Inl err \<Rightarrow> (w1, Inl err)
         | Inr hl \<Rightarrow>
       (case fulltext_rows e query rows w1 of
           (w2, Inl err) \<Rightarrow> (w2, Inl err)
         | (w2, Inr rs) \<Rightarrow>
             (w2, Inr (\<lparr>item = it, score = score', highlight = hl,
                        result_context = Fulltext (row_rank r)\<rparr> # rs)))))))"

definition fulltext_search ::
  "env \<Rightarrow> string \<Rightarrow> int \<Rightarrow> ContentType list option \<Rightarrow> string list option \<Rightarrow>
   string list option \<Rightarrow> world \<Rightarrow> world \<times> SearchResult list" where
  "fulltext_search e query limit content_types sources tgs w =
     (let ct = (if truthy content_types then Some (map ContentType_value (the content_types))
                else None);
          src = (if truthy sources then sources else None);
          w1 = w\<lparr>calls := calls w @ [LexicalQuery query ct src limit]\<rparr>
      in case fts_execute e query ct src limit of
           Inl err \<Rightarrow> (w1, [])
         | Inr rows \<Rightarrow>
             (case fulltext_rows e query rows w1 of
                (w2, Inl err) \<Rightarrow> (w2, [])
              | (w2, Inr rs) \<Rightarrow> (w2, rs)))"

subsection \<open>\<^verbatim>\<open>search\<close>\<close>

text \<open>The loop that combines the two result lists: a result is kept when its id has
  not been seen.\<close>

fun combine :: "string set \<Rightarrow> SearchResult list \<Rightarrow> SearchResult list" where
  "combine seen_ids [] = []"
| "combine seen_ids (r # rs) =
     (if item_id (item r) \<notin> seen_ids
      then r # combine (insert (item_id (item r)) seen_ids) rs
      else combine seen_ids rs)"

text \<open>\<^verbatim>\<open>results.sort(key=lambda x: x.score, reverse=True)\<close>: Python's sort is stable,
  and with \<^verbatim>\<open>reverse=True\<close> it sorts the reversed list and reverses the result, so
  that results of equal score keep their order.\<close>

definition sort_by_score :: "SearchResult list \<Rightarrow> SearchResult list" where
  "sort_by_score rs = rev (sort_key score (rev rs))"

text \<open>\<^verbatim>\<open>xs[:n]\<close>: a negative \<open>n\<close> counts from the end.\<close>

definition py_prefix :: "'a list \<Rightarrow> int \<Rightarrow> 'a list" where
  "py_prefix xs n = (if 0 \<le> n then take (nat n) xs else take (length xs - nat (- n)) xs)"

definition search ::
  "env \<Rightarrow> string \<Rightarrow> int \<Rightarrow> ContentType list option \<Rightarrow> string list option \<Rightarrow>
   string list option \<Rightarrow> world \<Rightarrow> world \<times> SearchResult list" where
  "search e query limit content_types sources tgs w =
     (case semantic_search e query (limit * 2) content_types sources tgs w of
        (w1, semantic_results) \<Rightarrow>
     (case fulltext_search e query (limit * 2) content_types sources tgs w1 of
        (w2, fts_results) \<Rightarrow>
          (w2, py_prefix (sort_by_score (combine {} (semantic_results @ fts_results))) limit)))"

subsection \<open>\<^verbatim>\<open>UniversalSearchAPI.search_knowledge_base\<close>\<close>

record result_json =
  json_id :: string
  json_title :: string
  json_content_type :: string
  json_source :: string
  json_score :: real
  json_highlight :: string
  json_metadata :: metadata
  json_tags :: "string list option"
  json_context :: search_context

definition to_json :: "SearchResult \<Rightarrow> result_json" where
  "to_json r =
     \<lparr>json_id = item_id (item r), json_title = title (item r),
      json_content_type = ContentType_value (content_type (item r)),
      json_source = source (item r), json_score = score r,
      json_highlight = highlight r, json_metadata = item_metadata (item r),
      json_tags = tags (item r), json_context = result_context r\<rparr>"

text \<open>The dictionary the API returns, without its two time fields: the status
  \<^verbatim>\<open>"success"\<close> with the query, \<^verbatim>\<open>total_results\<close> and the results, or the status
  \<^verbatim>\<open>"error"\<close> with the query and the error.\<close>

datatype api_response =
  Success string nat "result_json list"
| Failure string error

text \<open>The loop that converts the content-type strings: a string outside the
  enumeration is logged and left out.\<close>

fun content_type_enums :: "string list \<Rightarrow> ContentType list" where
  "content_type_enums [] = []"
| "content_type_enums (ct # cts) =
     (case ContentType_of ct of
        Some c \<Rightarrow> c # content_type_enums cts
      | None \<Rightarrow> content_type_enums cts)"

text \<open>\<^verbatim>\<open>search\<close> raises nothing (its two helpers catch every exception), so the
  \<^verbatim>\<open>except\<close> clause of \<^verbatim>\<open>search_knowledge_base\<close> is never entered and every answer
  is a \<open>Success\<close>.\<close>

definition search_knowledge_base ::
  "env \<Rightarrow> string \<Rightarrow> int \<Rightarrow> string list option \<Rightarrow> string list option \<Rightarrow>
   string list option \<Rightarrow> world \<Rightarrow> world \<times> api_response" where
  "search_knowledge_base e query limit content_types sources tgs w =
     (let enums = (if truthy content_types then content_type_enums (the content_types) else [])
      in case search e query limit (if enums \<noteq> [] then Some enums else None) sources tgs w of
           (w1, results) \<Rightarrow> (w1, Success query (length results) (map to_json results)))"

subsection \<open>\<^verbatim>\<open>add_items\<close>\<close>

text \<open>A row of the FTS5 table \<^verbatim>\<open>knowledge_fts\<close> and a row of the table
  \<^verbatim>\<open>knowledge_metadata\<close>, whose primary key \<^verbatim>\<open>id\<close> is the key of the map that
  holds the table. The metadata dictionary stands for its \<^verbatim>\<open>json.dumps\<close>.\<close>

record fts_entry =
  fts_id :: string
  fts_title :: string
  fts_content :: string
  fts_content_type :: string
  fts_source :: string
  fts_tags :: string
  fts_metadata :: metadata

record meta_row =
  meta_title :: string
  meta_content_type :: string
  meta_source :: string
  meta_created_at :: timestamp
  meta_updated_at :: timestamp
  meta_metadata :: metadata
  meta_tags :: string

record store =
  collection :: "chroma_entry list"
  knowledge_fts :: "fts_entry list"
  knowledge_metadata :: "string \<rightharpoonup> meta_row"

text \<open>The first loop of \<^verbatim>\<open>add_items\<close>, which builds \<^verbatim>\<open>metadatas\<close>:
  \<^verbatim>\<open>embeddings[i]\<close> raises when the encoder returned too few vectors,
  \<^verbatim>\<open>item.created_at.isoformat()\<close> and \<^verbatim>\<open>",".join(item.tags)\<close> raise on
  \<^verbatim>\<open>None\<close>. (The loop also stores the embedding in the item, which nothing reads
  afterwards.)\<close>

fun chroma_metadatas :: "KnowledgeItem list \<Rightarrow> real list list \<Rightarrow> error + chroma_meta list" where
  "chroma_metadatas [] embeddings = Inr []"
| "chroma_metadatas (it # its) [] = Inl IndexError"
| "chroma_metadatas (it # its) (emb # embeddings) =
     (case created_at it of
        None \<Rightarrow> Inl AttributeError
      | Some ca \<Rightarrow>
     (case tags it of
        None \<Rightarrow> Inl TypeError
      | Some tg \<Rightarrow>
     (case chroma_metadatas its embeddings of
        Inl err \<Rightarrow> Inl err
      | Inr ms \<Rightarrow>
          Inr (\<lparr>cm_title = title it, cm_content_type = ContentType_value (content_type it),
                cm_source = source it, cm_created_at = ca, cm_tags = py_join '','' tg\<rparr> # ms))))"

text \<open>The second loop, inside the SQLite transaction. The FTS5 table has no key but
  its rowid, so \<^verbatim>\<open>INSERT OR REPLACE\<close> adds a row to it; in
  \<^verbatim>\<open>knowledge_metadata\<close> it replaces the row of the same \<^verbatim>\<open>id\<close>.\<close>

fun sqlite_insert ::
  "KnowledgeItem list \<Rightarrow> fts_entry list \<times> (string \<rightharpoonup> meta_row) \<Rightarrow>
   error + fts_entry list \<times> (string \<rightharpoonup> meta_row)" where
  "sqlite_insert [] tables = Inr tables"
| "sqlite_insert (it # its) (fts, meta) =
     (case tags it of
        None \<Rightarrow> Inl TypeError
      | Some tg \<Rightarrow>
     (case created_at it of
        None \<Rightarrow> Inl AttributeError
      | Some ca \<Rightarrow>
     (case updated_at it of
        None \<Rightarrow> Inl AttributeError
      | Some ua \<Rightarrow>
          sqlite_insert its
            (fts @ [\<lparr>fts_id = item_id it, fts_title = title it, fts_content = content it,
                     fts_content_type = ContentType_value (content_type it),
                     fts_source = source it, fts_tags = py_join '','' tg,
                     fts_metadata = item_metadata it\<rparr>],
             meta(item_id it \<mapsto>
                    \<lparr>meta_title = title it,
                     meta_content_type = ContentType_value (content_type it),
                     meta_source = source it, meta_created_at = ca, meta_updated_at = ua,
                     meta_metadata = item_metadata it, meta_tags = py_join '','' tg\<rparr>)))))"

text \<open>\<^verbatim>\<open>add_items\<close> returns the store it leaves behind and the exception it raised,
  if any. An exception inside the SQLite transaction rolls the two tables back, not the
  collection.\<close>

definition add_items :: "env \<Rightarrow> store \<Rightarrow> KnowledgeItem list \<Rightarrow> error option \<times> store" where
  "add_items e st items =
     (if items = [] then (None, st)
      else case model_encode e (map content items) of
        Inl err \<Rightarrow> (Some err, st)
      | Inr embeddings \<Rightarrow>
     (case chroma_metadatas items embeddings of
        Inl err \<Rightarrow> (Some err, st)
      | Inr metadatas \<Rightarrow>
     (case collection_add e (collection st) (map item_id items) embeddings metadatas
             (map content items) of
        Inl err \<Rightarrow> (Some err, st)
      | Inr coll \<Rightarrow>
     (case sqlite_insert items (knowledge_fts st, knowledge_metadata st) of
        Inl err \<Rightarrow> (Some err, st\<lparr>collection := coll\<rparr>)
      | Inr (fts, meta) \<Rightarrow>
          (None, st\<lparr>collection := coll, knowledge_fts := fts, knowledge_metadata := meta\<rparr>)))))"

subsection \<open>Marking, as a relation\<close>

text \<open>The word \<open>word\<close> occurs in \<open>s\<close> at the index \<open>j\<close>, read without case (on ASCII
  strings).\<close>

definition occurs_ci :: "string \<Rightarrow> string \<Rightarrow> nat \<Rightarrow> bool" where
  "occurs_ci word s j \<longleftrightarrow> lower (take (length word) (drop j s)) = lower word"

text \<open>\<open>replaced_all word repl s t\<close>: \<open>t\<close> is \<open>s\<close> with the occurrences of \<open>word\<close>, taken
  from the left and without overlap, each replaced by \<open>repl\<close>. This is what marking a
  term means, said without the loop of \<open>re_sub_ci\<close>; the two are compared below.\<close>

inductive replaced_all :: "string \<Rightarrow> string \<Rightarrow> string \<Rightarrow> string \<Rightarrow> bool"
  for word repl :: string where
  no_occurrence: "(\<And>j. \<not> occurs_ci word s j) \<Longrightarrow> replaced_all word repl s s"
| occurrence:
    "occurs_ci word s i \<Longrightarrow> (\<And>j. j < i \<Longrightarrow> \<not> occurs_ci word s j) \<Longrightarrow>
     replaced_all word repl (drop (i + length word) s) t \<Longrightarrow>
     replaced_all word repl s (take i s @ repl @ t)"


subsection \<open>Example inputs\<close>

text \<open>A template parser that accepts the templates without a backslash, which \<^verbatim>\<open>re\<close>
  leaves as they are, and refuses the others.\<close>

definition plain_template :: "string \<Rightarrow> error + string" where
  "plain_template s = (if CHR 0x5C \<in> set s then Inl ReError else Inr s)"

text \<open>A hit and a row as \<^verbatim>\<open>add_items\<close> stores them: a note of source \<open>fs\<close>, titled
  by its id.\<close>

definition note_hit :: "string \<Rightarrow> string \<Rightarrow> string \<Rightarrow> real \<Rightarrow> chroma_hit" where
  "note_hit i doc tg d =
     \<lparr>hit_id = i,
      hit_metadata = [(''title'', i), (''content_type'', ''note''), (''source'', ''fs''),
                      (''tags'', tg)],
      hit_document = doc, hit_distance = d\<rparr>"

definition note_row :: "string \<Rightarrow> string \<Rightarrow> string \<Rightarrow> real \<Rightarrow> fts_row" where
  "note_row i doc tg r =
     \<lparr>row_id = i, row_title = i, row_content = doc, row_content_type = ''note'',
      row_source = ''fs'', row_tags = tg, row_metadata = [], row_rank = r\<rparr>"

text \<open>Two indexes that answer every query with the given hits and rows; the clock
  reads 0, 1, 2, ...; the collection appends what it is given; the characters outside
  ASCII have no case and are no spaces.\<close>

definition fixed_env :: "chroma_hit list \<Rightarrow> fts_row list \<Rightarrow> env" where
  "fixed_env hs rs =
     \<lparr>now = int,
      model_encode = (\<lambda>texts. Inr (map (\<lambda>t. [0]) texts)),
      collection_query = (\<lambda>q n wc. Inr hs),
      fts_execute = (\<lambda>q ct src n. Inr rs),
      collection_add = (\<lambda>coll ids embs mds docs.
         Inr (coll @ map (\<lambda>(i, em, md, d).
                \<lparr>ce_id = i, ce_embedding = em, ce_metadata = md, ce_document = d\<rparr>)
              (zip ids (zip embs (zip mds docs))))),
      json_loads = (\<lambda>s. Inr []),
      re_template = plain_template,
      unicode_lower = lower, unicode_upper = upper, unicode_split = py_split,
      unicode_sub = re_sub_ci\<rparr>"

text \<open>Two indexes that cannot be reached.\<close>

definition down_env :: env where
  "down_env =
     \<lparr>now = int,
      model_encode = (\<lambda>texts. Inr (map (\<lambda>t. [0]) texts)),
      collection_query = (\<lambda>q n wc. Inl ChromaError),
      fts_execute = (\<lambda>q ct src n. Inl SqliteError),
      collection_add = (\<lambda>coll ids embs mds docs. Inl ChromaError),
      json_loads = (\<lambda>s. Inr []),
      re_template = plain_template,
      unicode_lower = lower, unicode_upper = upper, unicode_split = py_split,
      unicode_sub = re_sub_ci\<rparr>"



definition world0 :: world where
  "world0 = \<lparr>ticks = 0, calls = []\<rparr>"

definition store0 :: store where
  "store0 = \<lparr>collection = [], knowledge_fts = [], knowledge_metadata = Map.empty\<rparr>"

text \<open>A raw record as a collector builds it: the two timestamps are left to
  \<^verbatim>\<open>__post_init__\<close>.\<close>

definition raw_note :: "string \<Rightarrow> string \<Rightarrow> string list \<Rightarrow> KnowledgeItem" where
  "raw_note i doc tg =
     \<lparr>item_id = i, title = i, content = doc, content_type = NOTE, source = ''fs'',
      item_metadata = [], embedding = None, created_at = None, updated_at = None,
      tags = Some tg\<rparr>"

section \<open>Properties\<close>

text \<open>The definitions a concrete run of \<open>search\<close> unfolds.\<close>

lemmas run_defs =
  search_def semantic_search_def fulltext_search_def fixed_env_def down_env_def
  world0_def note_hit_def note_row_def build_where_def truthy_def new_item_def post_init_def
  generate_highlight_def py_split_def lower_def lower_char_def is_space_def starts_with_def
  highlight_window_def mark_template_def upper_def upper_char_def plain_template_def
  is_ascii_def str_lower_def str_upper_def str_split_def re_sub_def
  ContentType_of_def tags_of_string_def py_split_sep_def sort_by_score_def py_prefix_def
  search_knowledge_base_def to_json_def

subsection \<open>Construction of a \<^verbatim>\<open>KnowledgeItem\<close>\<close>

text \<open>
  Claim C10. Right after its construction a \<^verbatim>\<open>KnowledgeItem\<close> has a \<^verbatim>\<open>created_at\<close>,
  an \<^verbatim>\<open>updated_at\<close> and a \<^verbatim>\<open>tags\<close> other than \<^verbatim>\<open>None\<close>: a missing
  \<^verbatim>\<open>created_at\<close> is the clock's reading at the construction, a missing
  \<^verbatim>\<open>updated_at\<close> is the item's \<^verbatim>\<open>created_at\<close>, and missing \<^verbatim>\<open>tags\<close> are the
  empty list.
\<close>

theorem new_item_defaults:
  "created_at (snd (new_item e w raw)) \<noteq> None \<and>
   updated_at (snd (new_item e w raw)) \<noteq> None \<and>
   tags (snd (new_item e w raw)) \<noteq> None \<and>
   (created_at raw = None \<longrightarrow> created_at (snd (new_item e w raw)) = Some (now e (ticks w))) \<and>
   (updated_at raw = None \<longrightarrow>
      updated_at (snd (new_item e w raw)) = created_at (snd (new_item e w raw))) \<and>
   (tags raw = None \<longrightarrow> tags (snd (new_item e w raw)) = Some [])"
  by (auto simp: new_item_def post_init_def Let_def)

theorem new_item_defaults_witness:
  "created_at (snd (new_item (fixed_env [] []) world0
      ((raw_note ''a1'' ''retry'' [])\<lparr>tags := None\<rparr>))) = Some 0 \<and>
   updated_at (snd (new_item (fixed_env [] []) world0
      ((raw_note ''a1'' ''retry'' [])\<lparr>tags := None\<rparr>))) = Some 0 \<and>
   tags (snd (new_item (fixed_env [] []) world0
      ((raw_note ''a1'' ''retry'' [])\<lparr>tags := None\<rparr>))) = Some []"
  using new_item_defaults
    [of "fixed_env [] []" world0 "(raw_note ''a1'' ''retry'' [])\<lparr>tags := None\<rparr>"]
  by (simp add: raw_note_def fixed_env_def world0_def)

subsection \<open>What the two helpers leave behind\<close>

lemma new_item_calls: "calls (fst (new_item e w raw)) = calls w"
  by (simp add: new_item_def)

lemma semantic_rows_calls: "calls (fst (semantic_rows e query hs w)) = calls w"
proof (induction hs arbitrary: w)
  case Nil
  then show ?case by simp
next
  case (Cons h hs)
  show ?case
    using Cons.IH [of "w\<lparr>ticks := Suc (ticks w)\<rparr>"]
    by (auto simp: Let_def new_item_def split: option.split sum.split prod.split)
qed

lemma fulltext_rows_calls: "calls (fst (fulltext_rows e query rs w)) = calls w"
proof (induction rs arbitrary: w)
  case Nil
  then show ?case by simp
next
  case (Cons r rs)
  show ?case
    using Cons.IH [of "w\<lparr>ticks := Suc (ticks w)\<rparr>"]
    by (auto simp: Let_def new_item_def split: option.split sum.split prod.split)
qed

lemma semantic_rows_callsD: "semantic_rows e query hs w = (w', r) \<Longrightarrow> calls w' = calls w"
  using semantic_rows_calls [of e query hs w] by simp

lemma fulltext_rows_callsD: "fulltext_rows e query rs w = (w', r) \<Longrightarrow> calls w' = calls w"
  using fulltext_rows_calls [of e query rs w] by simp

lemma search_ignores_tags:
  "search e query limit cts srcs tgs w = search e query limit cts srcs None w"
  by (simp add: search_def semantic_search_def fulltext_search_def)

subsection \<open>Scores\<close>

text \<open>
  Claim C1. Every result of \<open>search\<close> has a score in the interval from 0 to 1. The
  lexical score is \<^verbatim>\<open>max(0, -rank / 10.0)\<close>, which has no upper bound: a row of rank
  \<open>-15\<close> is returned with the score \<open>3/2\<close>.
\<close>

theorem fulltext_score_above_one:
  "map score (snd (search (fixed_env [] [note_row ''a1'' ''retry queue'' ''queue'' (- 15)])
      ''retry'' 5 None None None world0)) = [3 / 2]"
  by (simp add: run_defs)

subsection \<open>The tag filter\<close>

text \<open>
  Claim C8. With a tags filter, every returned item carries one of the requested tags.
  \<open>search\<close> hands \<^verbatim>\<open>tags\<close> to its two helpers, and neither reads it: asked for the
  tag \<open>queue\<close>, it returns an item whose only tag is \<open>fonts\<close>.
\<close>

theorem tags_filter_not_applied:
  "map (\<lambda>r. (item_id (item r), tags (item r)))
     (snd (search (fixed_env [note_hit ''a2'' ''unrelated topic about fonts'' ''fonts'' (1 / 2)] [])
        ''topic'' 5 None None (Some [''queue'']) world0)) = [(''a2'', Some [''fonts''])]"
  by (simp add: run_defs)

subsection \<open>Failing indexes\<close>

lemma semantic_search_down:
  assumes "\<forall>qe n wc. \<exists>err. collection_query e qe n wc = Inl err"
  shows "snd (semantic_search e query limit cts srcs tgs w) = []"
proof (cases "model_encode e [query]")
  case (Inl err)
  then show ?thesis by (simp add: semantic_search_def)
next
  case (Inr vs)
  show ?thesis
  proof (cases vs)
    case Nil
    with Inr show ?thesis by (simp add: semantic_search_def)
  next
    case (Cons qe rest)
    from assms obtain err where "collection_query e qe limit (build_where cts srcs) = Inl err"
      by blast
    with Inr Cons show ?thesis by (simp add: semantic_search_def Let_def)
  qed
qed

lemma fulltext_search_down:
  assumes "\<forall>q ct src n. \<exists>err. fts_execute e q ct src n = Inl err"
  shows "snd (fulltext_search e query limit cts srcs tgs w) = []"
proof -
  from assms obtain err where
    "fts_execute e query
       (if truthy cts then Some (map ContentType_value (the cts)) else None)
       (if truthy srcs then srcs else None) limit = Inl err"
    by blast
  then show ?thesis by (simp add: fulltext_search_def Let_def)
qed

lemma search_down:
  assumes "\<forall>qe n wc. \<exists>err. collection_query e qe n wc = Inl err"
    and "\<forall>q ct src n. \<exists>err. fts_execute e q ct src n = Inl err"
  shows "snd (search e query limit cts srcs tgs w) = []"
proof -
  obtain w1 sem where sem: "semantic_search e query (limit * 2) cts srcs tgs w = (w1, sem)"
    by (cases "semantic_search e query (limit * 2) cts srcs tgs w")
  obtain w2 fts where fts: "fulltext_search e query (limit * 2) cts srcs tgs w1 = (w2, fts)"
    by (cases "fulltext_search e query (limit * 2) cts srcs tgs w1")
  have "sem = []"
    using semantic_search_down [OF assms(1), of query "limit * 2" cts srcs tgs w] sem by simp
  moreover have "fts = []"
    using fulltext_search_down [OF assms(2), of query "limit * 2" cts srcs tgs w1] fts by simp
  ultimately show ?thesis
    using sem fts by (simp add: search_def sort_by_score_def py_prefix_def)
qed

text \<open>
  Claim C7, as the code has it. When the vector index and the lexical index both fail,
  each helper catches the exception and returns no results: \<open>search\<close> returns the empty
  list, and the API answers with the status \<^verbatim>\<open>"success"\<close> and no results.
\<close>

theorem search_unavailable_empty:
  assumes "\<forall>qe n wc. \<exists>err. collection_query e qe n wc = Inl err"
    and "\<forall>q ct src n. \<exists>err. fts_execute e q ct src n = Inl err"
  shows "snd (search e query limit cts srcs tgs w) = [] \<and>
         snd (search_knowledge_base e query limit content_types srcs tgs w) = Success query 0 []"
proof
  show "snd (search e query limit cts srcs tgs w) = []"
    by (rule search_down [OF assms])
  define cts' where
    "cts' = (let enums = (if truthy content_types then content_type_enums (the content_types)
                          else [])
             in if enums \<noteq> [] then Some enums else None)"
  obtain w1 rs where s: "search e query limit cts' srcs tgs w = (w1, rs)"
    by (cases "search e query limit cts' srcs tgs w")
  have "rs = []"
    using search_down [OF assms, of query limit cts' srcs tgs w] s by simp
  with s show "snd (search_knowledge_base e query limit content_types srcs tgs w) =
      Success query 0 []"
    by (simp add: search_knowledge_base_def cts'_def Let_def)
qed

theorem search_unavailable_empty_witness:
  "(\<forall>qe n wc. \<exists>err. collection_query down_env qe n wc = Inl err) \<and>
   (\<forall>q ct src n. \<exists>err. fts_execute down_env q ct src n = Inl err) \<and>
   snd (search down_env ''retry'' 5 None None None world0) = [] \<and>
   snd (search_knowledge_base down_env ''retry'' 5 None None None world0) = Success ''retry'' 0 []"
proof -
  have a: "\<forall>qe n wc. \<exists>err. collection_query down_env qe n wc = Inl err"
    by (simp add: down_env_def)
  have b: "\<forall>q ct src n. \<exists>err. fts_execute down_env q ct src n = Inl err"
    by (simp add: down_env_def)
  show ?thesis
    using a b search_unavailable_empty [OF a b, of "''retry''" 5 None None None world0 None]
    by simp
qed

text \<open>Two unreachable indexes and two empty indexes give the same answer, a success.\<close>

theorem unavailable_looks_like_no_match:
  "snd (search_knowledge_base down_env ''retry'' 5 None None None world0) =
     Success ''retry'' 0 [] \<and>
   snd (search_knowledge_base (fixed_env [] []) ''retry'' 5 None None None world0) =
     Success ''retry'' 0 []"
  by (simp add: run_defs)

subsection \<open>Invalid content types\<close>

lemma search_calls:
  assumes "model_encode e [query] = Inr (qe # rest)"
  shows "calls (fst (search e query limit cts srcs tgs w)) =
           calls w @
           [VectorQuery qe (limit * 2) (build_where cts srcs),
            LexicalQuery query
              (if truthy cts then Some (map ContentType_value (the cts)) else None)
              (if truthy srcs then srcs else None) (limit * 2)]"
proof -
  obtain w1 sem where sem: "semantic_search e query (limit * 2) cts srcs tgs w = (w1, sem)"
    by (cases "semantic_search e query (limit * 2) cts srcs tgs w")
  obtain w2 fts where fts: "fulltext_search e query (limit * 2) cts srcs tgs w1 = (w2, fts)"
    by (cases "fulltext_search e query (limit * 2) cts srcs tgs w1")
  have "calls (fst (semantic_search e query (limit * 2) cts srcs tgs w)) =
      calls w @ [VectorQuery qe (limit * 2) (build_where cts srcs)]"
    using assms
    by (auto simp: semantic_search_def Let_def split: sum.split prod.split
        dest: semantic_rows_callsD)
  then have 1: "calls w1 = calls w @ [VectorQuery qe (limit * 2) (build_where cts srcs)]"
    using sem by simp
  have "calls (fst (fulltext_search e query (limit * 2) cts srcs tgs w1)) =
      calls w1 @ [LexicalQuery query
              (if truthy cts then Some (map ContentType_value (the cts)) else None)
              (if truthy srcs then srcs else None) (limit * 2)]"
    by (auto simp: fulltext_search_def Let_def split: sum.split prod.split
        dest: fulltext_rows_callsD)
  then have 2: "calls w2 = calls w1 @ [LexicalQuery query
              (if truthy cts then Some (map ContentType_value (the cts)) else None)
              (if truthy srcs then srcs else None) (limit * 2)]"
    using fts by simp
  show ?thesis
    using sem fts 1 2 by (simp add: search_def)
qed

lemma ContentType_of_value: "ContentType_of (ContentType_value c) = Some c"
  by (cases c) (simp_all add: ContentType_of_def)

lemma ContentType_of_Some: "ContentType_of s = Some c \<Longrightarrow> ContentType_value c = s"
  by (auto simp: ContentType_of_def split: if_splits)

lemma valid_content_type: "s \<in> range ContentType_value \<longleftrightarrow> ContentType_of s \<noteq> None"
  using ContentType_of_value ContentType_of_Some by fastforce

lemma content_type_enums_values:
  "map ContentType_value (content_type_enums cts) =
   filter (\<lambda>s. s \<in> range ContentType_value) cts"
proof (induction cts)
  case Nil
  then show ?case by simp
next
  case (Cons ct cts)
  show ?case
  proof (cases "ContentType_of ct")
    case None
    with Cons.IH show ?thesis by (simp add: valid_content_type)
  next
    case (Some c)
    with Cons.IH ContentType_of_Some [OF Some] show ?thesis
      by (simp add: valid_content_type)
  qed
qed

lemma content_type_enums_Nil:
  "content_type_enums cts = [] \<longleftrightarrow> filter (\<lambda>s. s \<in> range ContentType_value) cts = []"
  using content_type_enums_values [of cts] by (metis map_is_Nil_conv)

lemma enums_of_Some:
  "(if truthy (Some cts) then content_type_enums (the (Some cts)) else []) = content_type_enums cts"
  by (cases cts) (simp_all add: truthy_def)

text \<open>
  Claim C9, as the code has it. A content-type string outside the enumeration is
  dropped from the filter and the query goes on with the others: the answer is the
  success built from what \<open>search\<close> returns for the content types of the valid strings
  (for no content-type filter when no string is valid), and the two indexes are asked
  for exactly the valid strings, in their order.
\<close>

theorem invalid_content_types_dropped:
  "search_knowledge_base e query limit (Some cts) srcs tgs w =
     (case search e query limit
             (if content_type_enums cts = [] then None else Some (content_type_enums cts))
             srcs tgs w of
        (w1, rs) \<Rightarrow> (w1, Success query (length rs) (map to_json rs))) \<and>
   map ContentType_value (content_type_enums cts) =
     filter (\<lambda>s. s \<in> range ContentType_value) cts \<and>
   (model_encode e [query] = Inr (qe # rest) \<longrightarrow>
      calls (fst (search_knowledge_base e query limit (Some cts) srcs tgs w)) =
        calls w @
        [VectorQuery qe (limit * 2)
           (if filter (\<lambda>s. s \<in> range ContentType_value) cts = [] \<and> \<not> truthy srcs then None
            else Some \<lparr>where_content_type =
                         (if filter (\<lambda>s. s \<in> range ContentType_value) cts = [] then None
                          else Some (filter (\<lambda>s. s \<in> range ContentType_value) cts)),
                       where_source = (if truthy srcs then srcs else None)\<rparr>),
         LexicalQuery query
           (if filter (\<lambda>s. s \<in> range ContentType_value) cts = [] then None
            else Some (filter (\<lambda>s. s \<in> range ContentType_value) cts))
           (if truthy srcs then srcs else None) (limit * 2)])"
proof (intro conjI impI)
  let ?en = "content_type_enums cts"
  let ?cts = "if ?en = [] then None else Some ?en"
  show skb: "search_knowledge_base e query limit (Some cts) srcs tgs w =
     (case search e query limit ?cts srcs tgs w of
        (w1, rs) \<Rightarrow> (w1, Success query (length rs) (map to_json rs)))"
    unfolding search_knowledge_base_def enums_of_Some Let_def
    by (cases "?en = []") simp_all
  show "map ContentType_value ?en = filter (\<lambda>s. s \<in> range ContentType_value) cts"
    by (rule content_type_enums_values)
  assume enc: "model_encode e [query] = Inr (qe # rest)"
  have "calls (fst (search_knowledge_base e query limit (Some cts) srcs tgs w)) =
      calls (fst (search e query limit ?cts srcs tgs w))"
    unfolding skb by (simp split: prod.split)
  also note search_calls [OF enc, of limit ?cts srcs tgs w]
  finally show "calls (fst (search_knowledge_base e query limit (Some cts) srcs tgs w)) =
        calls w @
        [VectorQuery qe (limit * 2)
           (if filter (\<lambda>s. s \<in> range ContentType_value) cts = [] \<and> \<not> truthy srcs then None
            else Some \<lparr>where_content_type =
                         (if filter (\<lambda>s. s \<in> range ContentType_value) cts = [] then None
                          else Some (filter (\<lambda>s. s \<in> range ContentType_value) cts)),
                       where_source = (if truthy srcs then srcs else None)\<rparr>),
         LexicalQuery query
           (if filter (\<lambda>s. s \<in> range ContentType_value) cts = [] then None
            else Some (filter (\<lambda>s. s \<in> range ContentType_value) cts))
           (if truthy srcs then srcs else None) (limit * 2)]"
    using content_type_enums_values [of cts] content_type_enums_Nil [of cts]
    by (auto simp: build_where_def truthy_def Let_def)
qed

theorem invalid_content_types_dropped_witness:
  "model_encode (fixed_env [note_hit ''a2'' ''fonts'' ''fonts'' (1 / 2)] []) [''fonts''] =
     Inr ([0] # []) \<and>
   filter (\<lambda>s. s \<in> range ContentType_value) [''bogus'', ''note'', ''code''] =
     [''note'', ''code''] \<and>
   calls (fst (search_knowledge_base (fixed_env [note_hit ''a2'' ''fonts'' ''fonts'' (1 / 2)] [])
     ''fonts'' 5 (Some [''bogus'', ''note'', ''code'']) None None world0)) =
   [VectorQuery [0] 10
      (Some \<lparr>where_content_type = Some [''note'', ''code''], where_source = None\<rparr>),
    LexicalQuery ''fonts'' (Some [''note'', ''code'']) None 10]"
proof -
  let ?e = "fixed_env [note_hit ''a2'' ''fonts'' ''fonts'' (1 / 2)] []"
  have enc: "model_encode ?e [''fonts''] = Inr ([0] # [])"
    by (simp add: fixed_env_def)
  have f: "filter (\<lambda>s. s \<in> range ContentType_value) [''bogus'', ''note'', ''code''] =
      [''note'', ''code'']"
    by (simp add: valid_content_type ContentType_of_def)
  note th = invalid_content_types_dropped
    [of ?e "''fonts''" 5 "[''bogus'', ''note'', ''code'']" None None world0 "[0]" "[]"]
  from mp [OF conjunct2 [OF conjunct2 [OF th]] enc]
  have "calls (fst (search_knowledge_base ?e ''fonts'' 5
      (Some [''bogus'', ''note'', ''code'']) None None world0)) =
   [VectorQuery [0] 10
      (Some \<lparr>where_content_type = Some [''note'', ''code''], where_source = None\<rparr>),
    LexicalQuery ''fonts'' (Some [''note'', ''code'']) None 10]"
    unfolding f by (simp add: world0_def truthy_def)
  with enc f show ?thesis by (intro conjI)
qed

text \<open>A query whose only content type is invalid is answered, with a result.\<close>

theorem invalid_content_type_accepted:
  "snd (search_knowledge_base
     (fixed_env [note_hit ''a2'' ''unrelated topic about fonts'' ''fonts'' (1 / 2)] [])
        ''topic'' 5 (Some [''bogus'']) None None world0) =
   Success ''topic'' 1
     [\<lparr>json_id = ''a2'', json_title = ''a2'', json_content_type = ''note'', json_source = ''fs'',
       json_score = 1 / 2, json_highlight = ''unrelated **TOPIC** about fonts'',
       json_metadata = [], json_tags = Some [''fonts''], json_context = Semantic (1 / 2)\<rparr>]"
  by (simp add: run_defs)

subsection \<open>The empty query\<close>




subsection \<open>Combining and sorting the two result lists\<close>

lemma combine_not_seen: "r \<in> set (combine seen rs) \<Longrightarrow> item_id (item r) \<notin> seen"
  by (induction rs arbitrary: seen) (auto split: if_splits)

lemma combine_subset: "set (combine seen rs) \<subseteq> set rs"
  by (induction rs arbitrary: seen) auto

lemma distinct_combine: "distinct (map (\<lambda>r. item_id (item r)) (combine seen rs))"
proof (induction rs arbitrary: seen)
  case Nil
  then show ?case by simp
next
  case (Cons x rs)
  have "item_id (item x) \<notin> (\<lambda>r. item_id (item r)) ` set (combine (insert (item_id (item x)) seen) rs)"
  proof
    assume "item_id (item x) \<in> (\<lambda>r. item_id (item r)) ` set (combine (insert (item_id (item x)) seen) rs)"
    then obtain y where y: "y \<in> set (combine (insert (item_id (item x)) seen) rs)"
      and "item_id (item y) = item_id (item x)" by auto
    with combine_not_seen [OF y] show False by simp
  qed
  with Cons.IH show ?case by simp
qed

lemma find_append_first:
  "List.find P (xs @ ys) = (case List.find P xs of Some x \<Rightarrow> Some x | None \<Rightarrow> List.find P ys)"
  by (induction xs) simp_all

lemma combine_first:
  "r \<in> set (combine seen rs) \<Longrightarrow>
   List.find (\<lambda>x. item_id (item x) = item_id (item r)) rs = Some r"
proof (induction rs arbitrary: seen)
  case Nil
  then show ?case by simp
next
  case (Cons x rs)
  show ?case
  proof (cases "item_id (item x) \<in> seen")
    case True
    with Cons.prems have r: "r \<in> set (combine seen rs)" by simp
    then have "item_id (item r) \<notin> seen" by (rule combine_not_seen)
    with True have "item_id (item x) \<noteq> item_id (item r)" by auto
    with Cons.IH [OF r] show ?thesis by simp
  next
    case False
    with Cons.prems have "r = x \<or> r \<in> set (combine (insert (item_id (item x)) seen) rs)"
      by simp
    then show ?thesis
    proof
      assume "r = x"
      then show ?thesis by simp
    next
      assume r: "r \<in> set (combine (insert (item_id (item x)) seen) rs)"
      then have "item_id (item r) \<noteq> item_id (item x)"
        using combine_not_seen by fastforce
      with Cons.IH [OF r] show ?thesis by simp
    qed
  qed
qed

lemma subseq_combine: "subseq (combine seen rs) rs"
  by (induction rs arbitrary: seen) auto

lemma distinct_map_insort_key:
  "distinct (map f (insort_key k x xs)) = (f x \<notin> f ` set xs \<and> distinct (map f xs))"
  by (induction xs) (auto simp: set_insort_key)

lemma distinct_map_sort_key: "distinct (map f (sort_key k xs)) = distinct (map f xs)"
  by (induction xs) (simp_all add: distinct_map_insort_key)

lemma set_sort_by_score: "set (sort_by_score rs) = set rs"
  by (simp add: sort_by_score_def)

lemma distinct_map_sort_by_score: "distinct (map f (sort_by_score rs)) = distinct (map f rs)"
  by (simp add: sort_by_score_def distinct_map_sort_key flip: rev_map)

lemma sorted_sort_by_score: "sorted_wrt (\<lambda>a b. score b \<le> score a) (sort_by_score rs)"
proof -
  have "sorted (map score (sort_key score (rev rs)))" by (rule sorted_sort_key)
  then show ?thesis
    by (simp add: sort_by_score_def sorted_wrt_rev sorted_map)
qed

lemma filter_sort_by_score:
  "filter (\<lambda>r. score r = k) (sort_by_score rs) = filter (\<lambda>r. score r = k) rs"
  by (simp add: sort_by_score_def sort_key_stable flip: rev_filter)

lemma py_prefix_take: "\<exists>m. py_prefix xs n = take m xs"
  by (auto simp: py_prefix_def)

text \<open>
  Claim C3, as the code has it. The list \<open>search\<close> returns is sorted by score, highest
  first, and the sort is stable: results of equal score stand in the order in which the
  two lists were combined, the semantic results before the lexical ones and each list
  in the order its index gave. \<^verbatim>\<open>updated_at\<close> takes no part in the order.
\<close>

theorem search_sorted_stable:
  "(case semantic_search e query (limit * 2) cts srcs tgs w of (w1, sem) \<Rightarrow>
    case fulltext_search e query (limit * 2) cts srcs tgs w1 of (w2, fts) \<Rightarrow>
      sorted_wrt (\<lambda>a b. score b \<le> score a) (snd (search e query limit cts srcs tgs w)) \<and>
      (\<forall>k. subseq (filter (\<lambda>r. score r = k) (snd (search e query limit cts srcs tgs w)))
                (sem @ fts)))"
proof -
  obtain w1 sem where sem: "semantic_search e query (limit * 2) cts srcs tgs w = (w1, sem)"
    by (cases "semantic_search e query (limit * 2) cts srcs tgs w")
  obtain w2 fts where fts: "fulltext_search e query (limit * 2) cts srcs tgs w1 = (w2, fts)"
    by (cases "fulltext_search e query (limit * 2) cts srcs tgs w1")
  define merged where "merged = combine {} (sem @ fts)"
  obtain m where out: "snd (search e query limit cts srcs tgs w) = take m (sort_by_score merged)"
    using py_prefix_take [of "sort_by_score merged" limit] sem fts
    by (auto simp: search_def merged_def)
  have "sorted_wrt (\<lambda>a b. score b \<le> score a) (take m (sort_by_score merged))"
    by (rule sorted_wrt_take) (rule sorted_sort_by_score)
  moreover have "subseq (filter (\<lambda>r. score r = k) (take m (sort_by_score merged))) (sem @ fts)" for k
  proof -
    have "prefix (filter (\<lambda>r. score r = k) (take m (sort_by_score merged)))
        (filter (\<lambda>r. score r = k) (sort_by_score merged))"
      by (rule filter_mono_prefix) (rule take_is_prefix)
    then have "subseq (filter (\<lambda>r. score r = k) (take m (sort_by_score merged)))
        (filter (\<lambda>r. score r = k) merged)"
      by (simp add: filter_sort_by_score prefix_imp_subseq)
    also have "subseq (filter (\<lambda>r. score r = k) merged) merged" by simp
    also have "subseq merged (sem @ fts)" unfolding merged_def by (rule subseq_combine)
    finally show ?thesis .
  qed
  ultimately show ?thesis using sem fts out by simp
qed

text \<open>Two hits of equal score: the one built first, whose \<^verbatim>\<open>updated_at\<close> is the
  older, comes first.\<close>

theorem ties_keep_merge_order:
  "map (\<lambda>r. (item_id (item r), score r, updated_at (item r)))
     (snd (search (fixed_env [note_hit ''a1'' ''retry'' [] (1 / 2),
                              note_hit ''a2'' ''retry'' [] (1 / 2)] [])
        ''retry'' 5 None None None world0)) =
   [(''a1'', 1 / 2, Some 0), (''a2'', 1 / 2, Some 1)]"
  by (simp add: run_defs)

lemma combine_ids:
  "(\<lambda>r. item_id (item r)) ` set (combine seen rs) = (\<lambda>r. item_id (item r)) ` set rs - seen"
  by (induction rs arbitrary: seen) auto

lemma length_combine:
  "length (combine {} rs) = card ((\<lambda>r. item_id (item r)) ` set rs)"
proof -
  have "length (map (\<lambda>r. item_id (item r)) (combine {} rs)) =
      card (set (map (\<lambda>r. item_id (item r)) (combine {} rs)))"
    by (rule distinct_card [symmetric]) (rule distinct_combine)
  then show ?thesis by (simp add: combine_ids)
qed

lemma combine_first_conv:
  assumes "s \<in> set rs"
    and "List.find (\<lambda>x. item_id (item x) = item_id (item s)) rs = Some s"
  shows "s \<in> set (combine {} rs)"
proof -
  from assms(1) have "item_id (item s) \<in> (\<lambda>r. item_id (item r)) ` set (combine {} rs)"
    by (simp add: combine_ids)
  then obtain r where r: "r \<in> set (combine {} rs)"
    and i: "item_id (item r) = item_id (item s)"
    by auto
  from combine_first [OF r]
  have "List.find (\<lambda>x. item_id (item x) = item_id (item s)) rs = Some r"
    unfolding i .
  with assms(2) have "r = s" by simp
  with r show ?thesis by simp
qed

lemma length_sort_by_score: "length (sort_by_score rs) = length rs"
  by (simp add: sort_by_score_def)

lemma take_cut_scores:
  assumes "sorted_wrt (\<lambda>a b. score b \<le> score a) xs"
    and "s \<in> set xs" and "s \<notin> set (take m xs)" and "r \<in> set (take m xs)"
  shows "score s \<le> score r"
proof -
  from assms(2,3) have s: "s \<in> set (drop m xs)"
    by (metis Un_iff append_take_drop_id set_append)
  have "\<forall>x\<in>set (take m xs). \<forall>y\<in>set (drop m xs). score y \<le> score x"
    using assms(1) sorted_wrt_append [of "\<lambda>a b. score b \<le> score a" "take m xs" "drop m xs"]
    by simp
  with s assms(4) show ?thesis by blast
qed

text \<open>
  Claim C2, as the code has it. No two results of \<open>search\<close> have the same id, and every
  result is the first one of its id in the semantic results followed by the lexical
  results: an id found by both indexes is returned as its semantic result, with the
  semantic score and context alone, and an id found by one index keeps that index's
  result. Every id found is merged: for a limit that is not negative the list has as
  many results as ids were found, up to the limit; when the limit covers the ids found,
  each of them is returned; and a first result that the limit cuts scores no higher
  than any result returned.
\<close>

theorem search_keeps_first:
  "(case semantic_search e query (limit * 2) cts srcs tgs w of (w1, sem) \<Rightarrow>
    case fulltext_search e query (limit * 2) cts srcs tgs w1 of (w2, fts) \<Rightarrow>
      distinct (map (\<lambda>r. item_id (item r)) (snd (search e query limit cts srcs tgs w))) \<and>
      (\<forall>r\<in>set (snd (search e query limit cts srcs tgs w)).
         List.find (\<lambda>x. item_id (item x) = item_id (item r)) (sem @ fts) = Some r \<and>
         (r \<in> set sem \<or>
          r \<in> set fts \<and> item_id (item r) \<notin> (\<lambda>x. item_id (item x)) ` set sem)) \<and>
      (0 \<le> limit \<longrightarrow>
         length (snd (search e query limit cts srcs tgs w)) =
           min (nat limit) (card ((\<lambda>x. item_id (item x)) ` set (sem @ fts)))) \<and>
      (int (card ((\<lambda>x. item_id (item x)) ` set (sem @ fts))) \<le> limit \<longrightarrow>
         (\<lambda>x. item_id (item x)) ` set (snd (search e query limit cts srcs tgs w)) =
         (\<lambda>x. item_id (item x)) ` set (sem @ fts)) \<and>
      (\<forall>s\<in>set (sem @ fts).
         List.find (\<lambda>x. item_id (item x) = item_id (item s)) (sem @ fts) = Some s \<longrightarrow>
         s \<in> set (snd (search e query limit cts srcs tgs w)) \<or>
         (\<forall>r\<in>set (snd (search e query limit cts srcs tgs w)). score s \<le> score r)))"
proof -
  obtain w1 sem where sem: "semantic_search e query (limit * 2) cts srcs tgs w = (w1, sem)"
    by (cases "semantic_search e query (limit * 2) cts srcs tgs w")
  obtain w2 fts where fts: "fulltext_search e query (limit * 2) cts srcs tgs w1 = (w2, fts)"
    by (cases "fulltext_search e query (limit * 2) cts srcs tgs w1")
  define merged where "merged = combine {} (sem @ fts)"
  define out where "out = snd (search e query limit cts srcs tgs w)"
  have out_def': "out = py_prefix (sort_by_score merged) limit"
    using sem fts by (simp add: out_def search_def merged_def)
  obtain m where out: "out = take m (sort_by_score merged)"
    using py_prefix_take [of "sort_by_score merged" limit] by (auto simp: out_def')
  have lm: "length merged = card ((\<lambda>x. item_id (item x)) ` set (sem @ fts))"
    unfolding merged_def by (rule length_combine)
  have d: "distinct (map (\<lambda>r. item_id (item r)) out)"
    unfolding out take_map [symmetric]
    by (rule distinct_take) (simp add: distinct_map_sort_by_score merged_def distinct_combine)
  have f: "List.find (\<lambda>x. item_id (item x) = item_id (item r)) (sem @ fts) = Some r \<and>
         (r \<in> set sem \<or>
          r \<in> set fts \<and> item_id (item r) \<notin> (\<lambda>x. item_id (item x)) ` set sem)"
    if "r \<in> set out" for r
  proof -
    from that have "r \<in> set (sort_by_score merged)" unfolding out by (rule in_set_takeD)
    then have r: "r \<in> set (combine {} (sem @ fts))"
      by (simp add: set_sort_by_score merged_def)
    then have 1: "List.find (\<lambda>x. item_id (item x) = item_id (item r)) (sem @ fts) = Some r"
      by (rule combine_first)
    from r combine_subset have 2: "r \<in> set sem \<or> r \<in> set fts" by fastforce
    have 3: "r \<in> set sem" if "item_id (item r) \<in> (\<lambda>x. item_id (item x)) ` set sem"
    proof -
      from that obtain s where "s \<in> set sem" "item_id (item s) = item_id (item r)" by auto
      then obtain y where y: "List.find (\<lambda>x. item_id (item x) = item_id (item r)) sem = Some y"
        by (cases "List.find (\<lambda>x. item_id (item x) = item_id (item r)) sem")
          (auto simp: find_None_iff)
      then have "y \<in> set sem" by (auto simp: find_Some_iff)
      moreover from y 1 have "y = r" by (simp add: find_append_first)
      ultimately show ?thesis by simp
    qed
    from 1 2 3 show ?thesis by blast
  qed
  have l: "length out = min (nat limit) (card ((\<lambda>x. item_id (item x)) ` set (sem @ fts)))"
    if "0 \<le> limit"
    using that by (simp add: out_def' py_prefix_def length_sort_by_score lm)
  have a: "(\<lambda>x. item_id (item x)) ` set out = (\<lambda>x. item_id (item x)) ` set (sem @ fts)"
    if "int (card ((\<lambda>x. item_id (item x)) ` set (sem @ fts))) \<le> limit"
  proof -
    from that have "out = sort_by_score merged"
      by (simp add: out_def' py_prefix_def length_sort_by_score lm)
    then show ?thesis by (simp add: set_sort_by_score merged_def combine_ids)
  qed
  have c: "s \<in> set out \<or> (\<forall>r\<in>set out. score s \<le> score r)"
    if "s \<in> set (sem @ fts)"
      and "List.find (\<lambda>x. item_id (item x) = item_id (item s)) (sem @ fts) = Some s" for s
  proof (cases "s \<in> set out")
    case True
    then show ?thesis by simp
  next
    case False
    from combine_first_conv [OF that] have "s \<in> set (sort_by_score merged)"
      by (simp add: set_sort_by_score merged_def)
    with False take_cut_scores [OF sorted_sort_by_score, of s merged m] show ?thesis
      unfolding out by blast
  qed
  from d f l a c show ?thesis
    unfolding out_def [symmetric] using sem fts by (simp add: out_def)
qed

theorem search_keeps_first_witness:
  "map (\<lambda>r. (item_id (item r), result_context r))
     (snd (search (fixed_env [note_hit ''a1'' ''retry'' [] (4 / 5), note_hit ''a2'' ''retry'' [] (1 / 2)]
                             [note_row ''a1'' ''retry'' [] (- 5), note_row ''a3'' ''retry'' [] (- 3)])
        ''retry'' 5 None None None world0)) =
     [(''a2'', Semantic (1 / 2)), (''a3'', Fulltext (- 3)), (''a1'', Semantic (4 / 5))] \<and>
   map (\<lambda>r. item_id (item r))
     (snd (semantic_search (fixed_env [note_hit ''a1'' ''retry'' [] (4 / 5), note_hit ''a2'' ''retry'' [] (1 / 2)]
                             [note_row ''a1'' ''retry'' [] (- 5), note_row ''a3'' ''retry'' [] (- 3)])
        ''retry'' 10 None None None world0)) = [''a1'', ''a2''] \<and>
   distinct (map (\<lambda>r. item_id (item r))
     (snd (search (fixed_env [note_hit ''a1'' ''retry'' [] (4 / 5), note_hit ''a2'' ''retry'' [] (1 / 2)]
                             [note_row ''a1'' ''retry'' [] (- 5), note_row ''a3'' ''retry'' [] (- 3)])
        ''retry'' 5 None None None world0)))"
  using search_keeps_first
    [of "fixed_env [note_hit ''a1'' ''retry'' [] (4 / 5), note_hit ''a2'' ''retry'' [] (1 / 2)]
                   [note_row ''a1'' ''retry'' [] (- 5), note_row ''a3'' ''retry'' [] (- 3)]"
        "''retry''" 5 None None None world0]
  by (simp add: run_defs)

text \<open>An id found by both indexes, with the scores \<open>1/5\<close> and \<open>1/2\<close>: the result has
  the semantic score \<open>1/5\<close>, not the maximum, and the semantic context alone. And with
  the limit 1, an id found by both indexes is not returned at all.\<close>

theorem duplicate_keeps_semantic_score:
  "map (\<lambda>r. (item_id (item r), score r, result_context r))
     (snd (search (fixed_env [note_hit ''a1'' ''retry'' [] (4 / 5)]
                             [note_row ''a1'' ''retry'' [] (- 5)])
        ''retry'' 5 None None None world0)) = [(''a1'', 1 / 5, Semantic (4 / 5))] \<and>
   map score (snd (semantic_search (fixed_env [note_hit ''a1'' ''retry'' [] (4 / 5)]
                             [note_row ''a1'' ''retry'' [] (- 5)])
        ''retry'' 10 None None None world0)) = [1 / 5] \<and>
   map score (snd (fulltext_search (fixed_env [note_hit ''a1'' ''retry'' [] (4 / 5)]
                             [note_row ''a1'' ''retry'' [] (- 5)])
        ''retry'' 10 None None None world0)) = [1 / 2] \<and>
   map (\<lambda>r. item_id (item r))
     (snd (search (fixed_env [note_hit ''a1'' ''retry'' [] (4 / 5), note_hit ''a2'' ''retry'' [] (1 / 2)]
                             [note_row ''a1'' ''retry'' [] (- 3)])
        ''retry'' 1 None None None world0)) = [''a2''] \<and>
   map (\<lambda>r. item_id (item r))
     (snd (semantic_search (fixed_env [note_hit ''a1'' ''retry'' [] (4 / 5), note_hit ''a2'' ''retry'' [] (1 / 2)]
                             [note_row ''a1'' ''retry'' [] (- 3)])
        ''retry'' 2 None None None world0)) = [''a1'', ''a2''] \<and>
   map (\<lambda>r. item_id (item r))
     (snd (fulltext_search (fixed_env [note_hit ''a1'' ''retry'' [] (4 / 5), note_hit ''a2'' ''retry'' [] (1 / 2)]
                             [note_row ''a1'' ''retry'' [] (- 3)])
        ''retry'' 2 None None None world0)) = [''a1'']"
  by (simp add: run_defs)

subsection \<open>Ingesting a record twice\<close>

text \<open>The definitions a concrete run of \<open>add_items\<close> unfolds.\<close>

lemmas store_defs = add_items_def fixed_env_def store0_def raw_note_def post_init_def

lemma add_items_single_metadata:
  assumes "add_items e st [it] = (None, st')"
    and "created_at it = Some ca" and "updated_at it = Some ua"
  shows "\<exists>row. knowledge_metadata st' = (knowledge_metadata st)(item_id it \<mapsto> row) \<and>
           meta_created_at row = ca \<and> meta_updated_at row = ua"
  using assms
  by (auto simp: add_items_def split: sum.splits option.splits list.splits prod.splits)

lemma post_init_fresh:
  assumes "created_at raw = None" and "updated_at raw = None"
  shows "created_at (post_init t raw) = Some t" and "updated_at (post_init t raw) = Some t"
    and "item_id (post_init t raw) = item_id raw"
  using assms by (simp_all add: post_init_def Let_def)

text \<open>
  Claim C5, as the code has it. A raw record is ingested twice, each time as an item
  built without timestamps (at the clock readings \<open>t1\<close> and \<open>t2\<close>), and both calls of
  \<open>add_items\<close> succeed. Then the table \<^verbatim>\<open>knowledge_metadata\<close> holds one row under the
  record's id, and the second ingestion has replaced it whole: its \<^verbatim>\<open>created_at\<close> and
  its \<^verbatim>\<open>updated_at\<close> are both \<open>t2\<close>, where the first ingestion had stored \<open>t1\<close>.
\<close>

theorem reingestion_replaces_metadata_row:
  assumes "created_at raw = None" and "updated_at raw = None"
    and "add_items e st [post_init t1 raw] = (None, st1)"
    and "add_items e st1 [post_init t2 raw] = (None, st2)"
  shows "map_option meta_created_at (knowledge_metadata st1 (item_id raw)) = Some t1 \<and>
         map_option meta_created_at (knowledge_metadata st2 (item_id raw)) = Some t2 \<and>
         map_option meta_updated_at (knowledge_metadata st2 (item_id raw)) = Some t2 \<and>
         dom (knowledge_metadata st2) = insert (item_id raw) (dom (knowledge_metadata st))"
proof -
  note p = post_init_fresh [OF assms(1,2)]
  from add_items_single_metadata [OF assms(3) p(1) p(2)] obtain row1 where
    1: "knowledge_metadata st1 = (knowledge_metadata st)(item_id raw \<mapsto> row1)"
    "meta_created_at row1 = t1"
    by (auto simp: p(3))
  from add_items_single_metadata [OF assms(4) p(1) p(2)] obtain row2 where
    2: "knowledge_metadata st2 = (knowledge_metadata st1)(item_id raw \<mapsto> row2)"
    "meta_created_at row2 = t2" "meta_updated_at row2 = t2"
    by (auto simp: p(3))
  from 1 2 show ?thesis by auto
qed

theorem reingestion_replaces_metadata_row_witness:
  "add_items (fixed_env [] []) store0 [post_init 1 (raw_note ''a1'' ''retry'' [''queue''])] =
     (None, snd (add_items (fixed_env [] []) store0
        [post_init 1 (raw_note ''a1'' ''retry'' [''queue''])])) \<and>
   map_option meta_updated_at
     (knowledge_metadata
        (snd (add_items (fixed_env [] [])
           (snd (add_items (fixed_env [] []) store0
              [post_init 1 (raw_note ''a1'' ''retry'' [''queue''])]))
           [post_init 2 (raw_note ''a1'' ''retry'' [''queue''])])) ''a1'') = Some 2"
proof -
  let ?e = "fixed_env [] []"
  let ?raw = "raw_note ''a1'' ''retry'' [''queue'']"
  let ?st1 = "snd (add_items ?e store0 [post_init 1 ?raw])"
  let ?st2 = "snd (add_items ?e ?st1 [post_init 2 ?raw])"
  have a: "created_at ?raw = None" and b: "updated_at ?raw = None"
    by (simp_all add: raw_note_def)
  have c: "add_items ?e store0 [post_init 1 ?raw] = (None, ?st1)"
    by (simp add: store_defs)
  have d: "add_items ?e ?st1 [post_init 2 ?raw] = (None, ?st2)"
    by (simp add: store_defs)
  have i: "item_id ?raw = ''a1''" by (simp add: raw_note_def)
  from reingestion_replaces_metadata_row [OF a b c d] c show ?thesis
    unfolding i by blast
qed

text \<open>The same record ingested at the readings 1 and 2: the stored \<^verbatim>\<open>created_at\<close>
  is 1 after the first ingestion and 2 after the second.\<close>

theorem reingestion_overwrites_created_at:
  "map_option meta_created_at
     (knowledge_metadata
        (snd (add_items (fixed_env [] []) store0
           [post_init 1 (raw_note ''a1'' ''retry'' [''queue''])])) ''a1'') = Some 1 \<and>
   map_option meta_created_at
     (knowledge_metadata
        (snd (add_items (fixed_env [] [])
           (snd (add_items (fixed_env [] []) store0
              [post_init 1 (raw_note ''a1'' ''retry'' [''queue''])]))
           [post_init 2 (raw_note ''a1'' ''retry'' [''queue''])])) ''a1'') = Some 2"
  by (simp add: store_defs)

text \<open>The full-text table then holds two rows of that id.\<close>

lemma reingestion_adds_fts_row:
  "map fts_id (knowledge_fts
        (snd (add_items (fixed_env [] [])
           (snd (add_items (fixed_env [] []) store0
              [post_init 1 (raw_note ''a1'' ''retry'' [''queue''])]))
           [post_init 2 (raw_note ''a1'' ''retry'' [''queue''])]))) = [''a1'', ''a1'']"
  by (simp add: store_defs)

subsection \<open>The highlight\<close>












lemma lower_append: "lower (xs @ ys) = lower xs @ lower ys"
  by (simp add: lower_def)















text \<open>The loop of \<open>re_sub_ci\<close> against the relation \<open>replaced_all\<close>: the loop
  computes the one string the relation allows.\<close>

lemma occurs_ci_0: "occurs_ci word s 0 \<longleftrightarrow> starts_with (lower word) (lower s)"
  by (simp add: occurs_ci_def starts_with_def lower_def take_map)

lemma occurs_ci_Suc: "occurs_ci word (c # cs) (Suc j) \<longleftrightarrow> occurs_ci word cs j"
  by (simp add: occurs_ci_def)

lemma occurs_ci_drop: "occurs_ci word (drop i s) 0 \<longleftrightarrow> occurs_ci word s i"
  by (simp add: occurs_ci_def)

lemma occurs_ci_bound:
  assumes "occurs_ci word s j" and "word \<noteq> []"
  shows "j + length word \<le> length s"
proof -
  from assms(1) have "length (lower (take (length word) (drop j s))) = length (lower word)"
    by (simp add: occurs_ci_def)
  then have "min (length s - j) (length word) = length word" by (simp add: lower_def)
  moreover from assms(2) have "0 < length word" by simp
  ultimately show ?thesis by arith
qed

lemma re_sub_ci_skip:
  assumes "word \<noteq> []"
  shows "(\<And>j. j < i \<Longrightarrow> \<not> occurs_ci word s j) \<Longrightarrow> i \<le> length s \<Longrightarrow>
         re_sub_ci word repl s = take i s @ re_sub_ci word repl (drop i s)"
proof (induction i arbitrary: s)
  case 0
  then show ?case by simp
next
  case (Suc i)
  from Suc.prems(2) obtain c cs where s: "s = c # cs" by (cases s) auto
  from Suc.prems(1) [of 0] have "\<not> starts_with (lower word) (lower (c # cs))"
    by (simp add: s occurs_ci_0)
  then have 1: "re_sub_ci word repl (c # cs) = c # re_sub_ci word repl cs"
    using assms by simp
  have "\<not> occurs_ci word cs j" if "j < i" for j
    using Suc.prems(1) [of "Suc j"] that by (simp add: s occurs_ci_Suc)
  from Suc.IH [OF this] Suc.prems(2)
  have "re_sub_ci word repl cs = take i cs @ re_sub_ci word repl (drop i cs)"
    by (simp add: s)
  with 1 show ?case by (simp add: s)
qed

lemma re_sub_ci_hit:
  assumes "word \<noteq> []" and "occurs_ci word s 0"
  shows "re_sub_ci word repl s = repl @ re_sub_ci word repl (drop (length word) s)"
proof (cases s)
  case Nil
  with occurs_ci_bound [OF assms(2) assms(1)] assms(1) show ?thesis by simp
next
  case (Cons c cs)
  with assms show ?thesis by (simp add: occurs_ci_0)
qed

lemma re_sub_ci_no_occurrence:
  assumes "word \<noteq> []" and "\<And>j. \<not> occurs_ci word s j"
  shows "re_sub_ci word repl s = s"
  using re_sub_ci_skip [OF assms(1), of "length s" s repl] assms by simp

lemma re_sub_ci_first_occurrence:
  assumes "word \<noteq> []" and "occurs_ci word s i" and "\<And>j. j < i \<Longrightarrow> \<not> occurs_ci word s j"
  shows "re_sub_ci word repl s =
         take i s @ repl @ re_sub_ci word repl (drop (i + length word) s)"
proof -
  from occurs_ci_bound [OF assms(2) assms(1)] have "i \<le> length s" by simp
  from re_sub_ci_skip [OF assms(1) assms(3) this]
  have "re_sub_ci word repl s = take i s @ re_sub_ci word repl (drop i s)" by simp
  also have "re_sub_ci word repl (drop i s) =
      repl @ re_sub_ci word repl (drop (length word) (drop i s))"
    using assms(1,2) by (intro re_sub_ci_hit) (simp_all add: occurs_ci_drop)
  finally show ?thesis by (simp add: add.commute)
qed


lemma replaced_all_unique:
  assumes "replaced_all word repl s t" and "word \<noteq> []"
  shows "t = re_sub_ci word repl s"
  using assms
proof (induction rule: replaced_all.induct)
  case (no_occurrence s)
  then show ?case by (simp add: re_sub_ci_no_occurrence)
next
  case (occurrence s i t)
  then show ?case by (simp add: re_sub_ci_first_occurrence)
qed







end
